theory Spec2Isabelle
  imports Main
begin

section \<open>Mode lattice\<close>

text \<open>
  The operator qualifiers that the mode checker orders. In the source a qualifier is one
  of the strings of \<open>modeOrder\<close>; \<open>qualifierString\<close> gives that string back where the
  source interpolates a qualifier into a message.
\<close>

datatype OpQualifier = staticval | staticdef | val | def | action | temporal

fun qualifierString :: "OpQualifier \<Rightarrow> string" where
  "qualifierString staticval = ''staticval''"
| "qualifierString staticdef = ''staticdef''"
| "qualifierString val = ''val''"
| "qualifierString def = ''def''"
| "qualifierString action = ''action''"
| "qualifierString temporal = ''temporal''"

definition modeOrder :: "OpQualifier list" where
  "modeOrder = [staticval, staticdef, val, def, action, temporal]"

text \<open>
  \<open>Array.prototype.findIndex\<close>: the index of the first element satisfying the
  predicate, and \<open>-1\<close> when there is none.
\<close>

fun findIndexFrom :: "int \<Rightarrow> ('a \<Rightarrow> bool) \<Rightarrow> 'a list \<Rightarrow> int" where
  "findIndexFrom i p [] = - 1"
| "findIndexFrom i p (x # xs) = (if p x then i else findIndexFrom (i + 1) p xs)"

definition findIndex :: "('a \<Rightarrow> bool) \<Rightarrow> 'a list \<Rightarrow> int" where
  "findIndex p xs = findIndexFrom 0 p xs"

definition moreGeneralMode :: "OpQualifier \<Rightarrow> OpQualifier \<Rightarrow> OpQualifier" where
  "moreGeneralMode m1 m2 =
     (let p1 = findIndex (\<lambda>elem. elem = m1) modeOrder;
          p2 = findIndex (\<lambda>elem. elem = m2) modeOrder
      in if p1 > p2 then m1 else m2)"

text \<open>
  The order as the specification writes it,
  \<open>staticval < staticdef < val < def < action < temporal\<close>, as a position.
\<close>

fun specPosition :: "OpQualifier \<Rightarrow> nat" where
  "specPosition staticval = 0"
| "specPosition staticdef = 1"
| "specPosition val = 2"
| "specPosition def = 3"
| "specPosition action = 4"
| "specPosition temporal = 5"

section \<open>Effects\<close>

text \<open>
  Modelled from the spec: the module \<open>./base\<close> that declares \<open>Variables\<close>,
  \<open>ConcreteEffect\<close>, \<open>ArrowEffect\<close> and \<open>Effect\<close> is not part of the sources at hand.
  A variables payload is a concrete list of variable names or a union of payloads (the
  mode checker reads \<open>kind\<close> and, of a union, \<open>variables\<close>). Payloads are JavaScript
  objects and the checker keeps them in a \<open>Set\<close>, which compares objects by identity,
  so every payload carries the identity of its object.
\<close>

type_synonym objId = nat

datatype Variables =
    ConcreteVars objId "string list"
  | UnionVars objId "Variables list"

fun objectOf :: "Variables \<Rightarrow> objId" where
  "objectOf (ConcreteVars i vs) = i"
| "objectOf (UnionVars i us) = i"

record ConcreteEffect =
  read :: Variables
  update :: Variables

datatype Effect =
    Concrete ConcreteEffect
  | Arrow "Effect list" Effect

text \<open>
  The predicates \<open>isAction\<close>, \<open>isTemporal\<close> and \<open>isState\<close> are imported from
  \<open>./base\<close> too; the mode checker only calls them, so they are parameters here.
\<close>

record Base =
  isAction :: "ConcreteEffect \<Rightarrow> bool"
  isTemporal :: "ConcreteEffect \<Rightarrow> bool"
  isState :: "ConcreteEffect \<Rightarrow> bool"

section \<open>Thrown errors\<close>

text \<open>
  What the mode checker can throw: the \<open>Error\<close> it constructs itself, with its
  message, and the \<open>TypeError\<close> of the runtime.
\<close>

datatype exn = Error string | TypeError

section \<open>Effect reducer: \<open>ModeFinderVisitor\<close>\<close>

text \<open>
  The visitor's only field is \<open>currentMode\<close>; each hook takes its value and returns
  the new one.
\<close>

definition exitConcrete :: "Base \<Rightarrow> OpQualifier \<Rightarrow> ConcreteEffect \<Rightarrow> OpQualifier" where
  "exitConcrete base currentMode effect =
     (let mode = (if isAction base effect then action
                  else if isTemporal base effect then temporal
                  else if isState base effect then val
                  else staticval)
      in moreGeneralMode currentMode mode)"

text \<open>
  \<open>paramReads\<close> is a \<open>Set<Variables>\<close>: the identities of the objects added, in
  insertion order. \<open>setAdd\<close> is \<open>Set.prototype.add\<close>, \<open>setHas\<close> is
  \<open>Set.prototype.has\<close>.
\<close>

definition setAdd :: "objId list \<Rightarrow> Variables \<Rightarrow> objId list" where
  "setAdd s v = (if objectOf v \<in> set s then s else s @ [objectOf v])"

definition setHas :: "objId list \<Rightarrow> Variables \<Rightarrow> bool" where
  "setHas s v = (objectOf v \<in> set s)"

text \<open>
  The callback of \<open>effect.params.forEach\<close>. For a union-shaped read it runs
  \<open>p.read.variables.forEach(paramReads.add)\<close>: the method is passed without its
  receiver, so its first call (on the first member, when there is one) throws a
  \<open>TypeError\<close> and nothing is added.
\<close>

fun addParamReads :: "objId list \<Rightarrow> Effect \<Rightarrow> exn + objId list" where
  "addParamReads paramReads (Concrete p) =
     (case read p of
        UnionVars i variables \<Rightarrow> (if variables = [] then Inr paramReads else Inl TypeError)
      | ConcreteVars i vs \<Rightarrow> Inr (setAdd paramReads (read p)))"
| "addParamReads paramReads (Arrow ps r) = Inr paramReads"

fun forEachParam :: "objId list \<Rightarrow> Effect list \<Rightarrow> exn + objId list" where
  "forEachParam paramReads [] = Inr paramReads"
| "forEachParam paramReads (p # ps) =
     (case addParamReads paramReads p of
        Inl e \<Rightarrow> Inl e
      | Inr paramReads' \<Rightarrow> forEachParam paramReads' ps)"

fun resultMode :: "objId list \<Rightarrow> Effect \<Rightarrow> OpQualifier" where
  "resultMode paramReads (Concrete r) =
     (if (case read r of
            UnionVars i variables \<Rightarrow> \<not> list_all (\<lambda>v. setHas paramReads v) variables
          | ConcreteVars i vs \<Rightarrow> False)
      then def
      else if \<not> setHas paramReads (read r) then def
      else staticdef)"
| "resultMode paramReads (Arrow ps r) = staticdef"

definition exitArrow :: "OpQualifier \<Rightarrow> Effect list \<Rightarrow> Effect \<Rightarrow> exn + OpQualifier" where
  "exitArrow currentMode params result =
     (if currentMode \<noteq> staticdef \<and> currentMode \<noteq> def then Inr currentMode
      else (case forEachParam [] params of
              Inl e \<Rightarrow> Inl e
            | Inr paramReads \<Rightarrow> Inr (resultMode paramReads result)))"

text \<open>
  Modelled from the spec: \<open>walkEffect\<close> of \<open>./effectVisitor\<close> is not part of the
  sources at hand. The tree is visited bottom-up, children before parents: a concrete
  node calls \<open>exitConcrete\<close>; an arrow node walks its parameters in order, then its
  result, then calls \<open>exitArrow\<close>.
\<close>

fun walkEffect :: "Base \<Rightarrow> OpQualifier \<Rightarrow> Effect \<Rightarrow> exn + OpQualifier"
  and walkEffects :: "Base \<Rightarrow> OpQualifier \<Rightarrow> Effect list \<Rightarrow> exn + OpQualifier" where
  "walkEffect base currentMode (Concrete c) = Inr (exitConcrete base currentMode c)"
| "walkEffect base currentMode (Arrow ps r) =
     (case walkEffects base currentMode ps of
        Inl e \<Rightarrow> Inl e
      | Inr m1 \<Rightarrow>
          (case walkEffect base m1 r of
             Inl e \<Rightarrow> Inl e
           | Inr m2 \<Rightarrow> exitArrow m2 ps r))"
| "walkEffects base currentMode [] = Inr currentMode"
| "walkEffects base currentMode (p # ps) =
     (case walkEffect base currentMode p of
        Inl e \<Rightarrow> Inl e
      | Inr m \<Rightarrow> walkEffects base m ps)"

text \<open>
  The same walk, recording the value of \<open>currentMode\<close> at every call of
  \<open>exitArrow\<close>, in the order of the calls.
\<close>

fun walkEffectTrace :: "Base \<Rightarrow> OpQualifier \<Rightarrow> Effect \<Rightarrow> exn + (OpQualifier \<times> OpQualifier list)"
  and walkEffectsTrace :: "Base \<Rightarrow> OpQualifier \<Rightarrow> Effect list \<Rightarrow> exn + (OpQualifier \<times> OpQualifier list)" where
  "walkEffectTrace base currentMode (Concrete c) = Inr (exitConcrete base currentMode c, [])"
| "walkEffectTrace base currentMode (Arrow ps r) =
     (case walkEffectsTrace base currentMode ps of
        Inl e \<Rightarrow> Inl e
      | Inr (m1, t1) \<Rightarrow>
          (case walkEffectTrace base m1 r of
             Inl e \<Rightarrow> Inl e
           | Inr (m2, t2) \<Rightarrow>
               (case exitArrow m2 ps r of
                  Inl e \<Rightarrow> Inl e
                | Inr m3 \<Rightarrow> Inr (m3, t1 @ t2 @ [m2]))))"
| "walkEffectsTrace base currentMode [] = Inr (currentMode, [])"
| "walkEffectsTrace base currentMode (p # ps) =
     (case walkEffectTrace base currentMode p of
        Inl e \<Rightarrow> Inl e
      | Inr (m, t1) \<Rightarrow>
          (case walkEffectsTrace base m ps of
             Inl e \<Rightarrow> Inl e
           | Inr (m', t2) \<Rightarrow> Inr (m', t1 @ t2)))"

section \<open>Definition checker: \<open>ModeCheckerVisitor\<close>\<close>

datatype ErrorTree =
  ErrorTree (location: string) (message: string) (children: "ErrorTree list")

text \<open>
  Modelled from the spec: \<open>TntOpDef\<close> and \<open>TntModule\<close> of \<open>../tntIr\<close> are not part
  of the sources at hand. A definition has an identifier (a \<open>BigInt\<close>; the field \<open>id\<close>
  of the source, here \<open>ident\<close>), a name and a declared qualifier; a module is the
  sequence of its operator definitions in the order the walk leaves them.
\<close>

record TntOpDef =
  ident :: int
  name :: string
  qualifier :: OpQualifier

record TntModule =
  defs :: "TntOpDef list"

text \<open>
  A JavaScript \<open>Map\<close> as an association list in insertion order with distinct keys:
  \<open>mapSet\<close> is \<open>Map.prototype.set\<close>, which replaces the value of a key already
  present and appends a new key at the end.
\<close>

fun mapSet :: "('k \<times> 'v) list \<Rightarrow> 'k \<Rightarrow> 'v \<Rightarrow> ('k \<times> 'v) list" where
  "mapSet [] k v = [(k, v)]"
| "mapSet ((k', v') # m) k v =
     (if k' = k then (k, v) # m else (k', v') # mapSet m k v)"

text \<open>
  The visitor's fields; \<open>currentMode\<close> is the field of its \<open>modeFinderVisitor\<close>.
\<close>

record ModeCheckerVisitor =
  errors :: "(int \<times> ErrorTree) list"
  suggestions :: "(int \<times> OpQualifier) list"
  effects :: "int \<rightharpoonup> Effect"
  currentMode :: OpQualifier

definition newModeCheckerVisitor :: "(int \<rightharpoonup> Effect) \<Rightarrow> ModeCheckerVisitor" where
  "newModeCheckerVisitor effs =
     \<lparr>errors = [], suggestions = [], effects = effs, currentMode = staticval\<rparr>"

text \<open>
  \<open>definitionToString\<close> of \<open>../IRprinting\<close> is only called, so it is a parameter.
\<close>

definition exitOpDef ::
  "Base \<Rightarrow> (TntOpDef \<Rightarrow> string) \<Rightarrow> ModeCheckerVisitor \<Rightarrow> TntOpDef \<Rightarrow> exn + ModeCheckerVisitor" where
  "exitOpDef base definitionToString visitor d =
     (case effects visitor (ident d) of
        None \<Rightarrow> Inl (Error (''effect not found for definition '' @ name d))
      | Some effect \<Rightarrow>
          (case walkEffect base (currentMode visitor) effect of
             Inl e \<Rightarrow> Inl e
           | Inr mode \<Rightarrow>
               (let visitor1 = visitor\<lparr>currentMode := staticval\<rparr> in
                if mode = qualifier d then Inr visitor1
                else
                  (let generalMode = moreGeneralMode mode (qualifier d) in
                   if generalMode = mode then
                     Inr (visitor1\<lparr>errors := mapSet (errors visitor1) (ident d)
                       (ErrorTree (''Checking modes for '' @ definitionToString d)
                          (''Expected '' @ qualifierString mode @ '' mode, found: ''
                             @ qualifierString (qualifier d))
                          [])\<rparr>)
                   else if generalMode = qualifier d then
                     Inr (visitor1\<lparr>suggestions := mapSet (suggestions visitor1) (ident d) mode\<rparr>)
                   else Inr visitor1))))"

section \<open>Module driver: \<open>checkModes\<close>\<close>

text \<open>
  Modelled from the spec: \<open>walkModule\<close> of \<open>../IRVisitor\<close> is not part of the sources
  at hand. It calls \<open>exitOpDef\<close> on every definition of the module in order; an
  exception thrown by a call ends the walk.
\<close>

fun walkDefs ::
  "Base \<Rightarrow> (TntOpDef \<Rightarrow> string) \<Rightarrow> ModeCheckerVisitor \<Rightarrow> TntOpDef list \<Rightarrow> exn + ModeCheckerVisitor" where
  "walkDefs base definitionToString visitor [] = Inr visitor"
| "walkDefs base definitionToString visitor (d # ds) =
     (case exitOpDef base definitionToString visitor d of
        Inl e \<Rightarrow> Inl e
      | Inr visitor' \<Rightarrow> walkDefs base definitionToString visitor' ds)"

definition walkModule ::
  "Base \<Rightarrow> (TntOpDef \<Rightarrow> string) \<Rightarrow> ModeCheckerVisitor \<Rightarrow> TntModule \<Rightarrow> exn + ModeCheckerVisitor" where
  "walkModule base definitionToString visitor tntModule =
     walkDefs base definitionToString visitor (defs tntModule)"

datatype ('a, 'b) Either = Left 'a | Right 'b

definition checkModes ::
  "Base \<Rightarrow> (TntOpDef \<Rightarrow> string) \<Rightarrow> TntModule \<Rightarrow> (int \<rightharpoonup> Effect)
     \<Rightarrow> exn + ((int \<times> ErrorTree) list, (int \<times> OpQualifier) list) Either" where
  "checkModes base definitionToString tntModule effs =
     (case walkModule base definitionToString (newModeCheckerVisitor effs) tntModule of
        Inl e \<Rightarrow> Inl e
      | Inr visitor \<Rightarrow>
          (if length (errors visitor) > 0 then Inr (Left (errors visitor))
           else Inr (Right (suggestions visitor))))"

section \<open>The checker as the specification describes it\<close>

text \<open>
  The two ways a definition can disagree with its inferred mode, as \<open>exitOpDef\<close> tests
  them on the mode folded from \<open>staticval\<close>.
\<close>

definition tooWeak :: "Base \<Rightarrow> (int \<rightharpoonup> Effect) \<Rightarrow> TntOpDef \<Rightarrow> bool" where
  "tooWeak base effs d =
     (case effs (ident d) of
        None \<Rightarrow> False
      | Some effect \<Rightarrow>
          (case walkEffect base staticval effect of
             Inl e \<Rightarrow> False
           | Inr mode \<Rightarrow> mode \<noteq> qualifier d \<and> moreGeneralMode mode (qualifier d) = mode))"

definition tooStrong :: "Base \<Rightarrow> (int \<rightharpoonup> Effect) \<Rightarrow> TntOpDef \<Rightarrow> bool" where
  "tooStrong base effs d =
     (case effs (ident d) of
        None \<Rightarrow> False
      | Some effect \<Rightarrow>
          (case walkEffect base staticval effect of
             Inl e \<Rightarrow> False
           | Inr mode \<Rightarrow> mode \<noteq> qualifier d \<and> moreGeneralMode mode (qualifier d) = qualifier d))"

text \<open>
  The checker as the specification describes it, without a visitor: each definition is
  judged by a function of the effect map and the definition alone, and the judgements
  are collected in order.
\<close>

datatype Verdict = Accept | TooWeak ErrorTree | TooStrong OpQualifier

definition checkDefinitionSpec ::
  "Base \<Rightarrow> (TntOpDef \<Rightarrow> string) \<Rightarrow> (int \<rightharpoonup> Effect) \<Rightarrow> TntOpDef \<Rightarrow> exn + Verdict" where
  "checkDefinitionSpec base definitionToString effs d =
     (case effs (ident d) of
        None \<Rightarrow> Inl (Error (''effect not found for definition '' @ name d))
      | Some effect \<Rightarrow>
          (case walkEffect base staticval effect of
             Inl e \<Rightarrow> Inl e
           | Inr inferred \<Rightarrow>
               (if inferred = qualifier d then Inr Accept
                else if moreGeneralMode inferred (qualifier d) = inferred then
                  Inr (TooWeak
                    (ErrorTree (''Checking modes for '' @ definitionToString d)
                       (''Expected '' @ qualifierString inferred @ '' mode, found: ''
                          @ qualifierString (qualifier d))
                       []))
                else Inr (TooStrong inferred))))"

fun collectSpec ::
  "Base \<Rightarrow> (TntOpDef \<Rightarrow> string) \<Rightarrow> (int \<rightharpoonup> Effect)
     \<Rightarrow> (int \<times> ErrorTree) list \<times> (int \<times> OpQualifier) list \<Rightarrow> TntOpDef list
     \<Rightarrow> exn + ((int \<times> ErrorTree) list \<times> (int \<times> OpQualifier) list)" where
  "collectSpec base definitionToString effs (errs, suggs) [] = Inr (errs, suggs)"
| "collectSpec base definitionToString effs (errs, suggs) (d # ds) =
     (case checkDefinitionSpec base definitionToString effs d of
        Inl e \<Rightarrow> Inl e
      | Inr Accept \<Rightarrow> collectSpec base definitionToString effs (errs, suggs) ds
      | Inr (TooWeak t) \<Rightarrow>
          collectSpec base definitionToString effs (mapSet errs (ident d) t, suggs) ds
      | Inr (TooStrong m) \<Rightarrow>
          collectSpec base definitionToString effs (errs, mapSet suggs (ident d) m) ds)"

definition checkModesSpec ::
  "Base \<Rightarrow> (TntOpDef \<Rightarrow> string) \<Rightarrow> TntModule \<Rightarrow> (int \<rightharpoonup> Effect)
     \<Rightarrow> exn + ((int \<times> ErrorTree) list, (int \<times> OpQualifier) list) Either" where
  "checkModesSpec base definitionToString tntModule effs =
     (case collectSpec base definitionToString effs ([], []) (defs tntModule) of
        Inl e \<Rightarrow> Inl e
      | Inr (errs, suggs) \<Rightarrow> (if errs \<noteq> [] then Inr (Left errs) else Inr (Right suggs)))"


section \<open>Example inputs\<close>

text \<open>
  Flattening a payload into the variable names it holds, and an instance of the
  classification predicates built on it: a concrete effect is an action when it updates
  a variable, a state read when it reads one, and never temporal. The instance and the
  effects below are the concrete inputs on which the checker is evaluated.
\<close>

fun variableNames :: "Variables \<Rightarrow> string list" where
  "variableNames (ConcreteVars i vs) = vs"
| "variableNames (UnionVars i us) = concat (map variableNames us)"

abbreviation stateBase :: Base where
  "stateBase \<equiv>
     \<lparr>isAction = \<lambda>e. variableNames (update e) \<noteq> [],
      isTemporal = \<lambda>e. False,
      isState = \<lambda>e. variableNames (read e) \<noteq> []\<rparr>"

abbreviation readsX :: Effect where
  "readsX \<equiv> Concrete \<lparr>read = ConcreteVars 1 [''x''], update = ConcreteVars 2 []\<rparr>"

abbreviation updatesX :: Effect where
  "updatesX \<equiv> Concrete \<lparr>read = ConcreteVars 3 [], update = ConcreteVars 4 [''x'']\<rparr>"

abbreviation readsNothing :: Effect where
  "readsNothing \<equiv> Concrete \<lparr>read = ConcreteVars 5 [], update = ConcreteVars 6 []\<rparr>"


section \<open>The arrow rule as the specification states it\<close>

text \<open>
  The set \<open>P\<close> of the specification: the read payloads of the concrete parameters,
  a union-shaped payload replaced by its members. Membership is identity of objects,
  as in the \<open>Set\<close> of the source.
\<close>

definition specParamReads :: "Effect list \<Rightarrow> objId list" where
  "specParamReads params =
     concat (map (\<lambda>p. case p of
                         Concrete c \<Rightarrow>
                           (case read c of
                              UnionVars i variables \<Rightarrow> map objectOf variables
                            | ConcreteVars i vs \<Rightarrow> [i])
                       | Arrow ps r \<Rightarrow> []) params)"

text \<open>
  The accumulator after an arrow node visited at \<open>staticdef\<close> or \<open>def\<close>: \<open>def\<close>
  when the result's read is a union with a member absent from \<open>P\<close>, or is a single
  payload absent from \<open>P\<close>, and \<open>staticdef\<close> in every other case.
\<close>

definition specExitArrow :: "Effect list \<Rightarrow> Effect \<Rightarrow> OpQualifier" where
  "specExitArrow params result =
     (case result of
        Concrete r \<Rightarrow>
          (case read r of
             UnionVars i variables \<Rightarrow>
               (if list_ex (\<lambda>v. objectOf v \<notin> set (specParamReads params)) variables
                then def else staticdef)
           | ConcreteVars i vs \<Rightarrow>
               (if i \<notin> set (specParamReads params) then def else staticdef))
      | Arrow ps r \<Rightarrow> staticdef)"




section \<open>The verifier's \<open>check\<close> command\<close>

text \<open>
  The values that \<open>JSON.parse\<close> returns, and \<open>undefined\<close>, which reading an absent
  property gives. A number is kept as its text.
\<close>

datatype json =
    JNull
  | JBool bool
  | JNumber string
  | JString string
  | JArray "json list"
  | JObject "(string \<times> json) list"

datatype jsvalue = Undefined | Value json

text \<open>
  What \<open>check\<close> can throw: the \<open>SyntaxError\<close> of \<open>JSON.parse\<close>, the \<open>TypeError\<close>
  of reading a property of \<open>null\<close> or \<open>undefined\<close>, and the two internal errors of
  \<open>handleVerificationFailure\<close>, whose message is the given text followed by the
  interpolated value.
\<close>

datatype fault =
    JsonSyntaxError
  | PropertyTypeError
  | InternalError string jsvalue

text \<open>
  Reading one of the properties \<open>msg\<close>, \<open>pass_name\<close>, \<open>error_data\<close>,
  \<open>checking_result\<close>, \<open>counterexamples\<close>: it throws on \<open>null\<close> and \<open>undefined\<close>,
  looks the name up in an object, and is \<open>undefined\<close> on every other value.
\<close>

fun getProperty :: "jsvalue \<Rightarrow> string \<Rightarrow> fault + jsvalue" where
  "getProperty Undefined k = Inl PropertyTypeError"
| "getProperty (Value JNull) k = Inl PropertyTypeError"
| "getProperty (Value (JObject kvs)) k =
     Inr (case map_of kvs k of None \<Rightarrow> Undefined | Some v \<Rightarrow> Value v)"
| "getProperty (Value v) k = Inr Undefined"

text \<open>
  \<open>VerifyError\<close>; its field \<open>errors\<close> is \<open>verifyErrors\<close> here. Every error built by
  the code below has no error messages, so their type stays a parameter. The
  explanation is a string by its declared type and whatever \<open>errData.msg\<close> is at run
  time; the traces are \<open>undefined\<close> when none are given.
\<close>

record 'm VerifyError =
  explanation :: jsvalue
  verifyErrors :: "'m list"
  traces :: jsvalue

datatype RunResponse = Failure string string | Success

definition err :: "jsvalue \<Rightarrow> ('m VerifyError, 'a) Either" where
  "err expl = Left \<lparr>explanation = expl, verifyErrors = [], traces = Undefined\<rparr>"

definition handleVerificationFailure :: "jsvalue \<Rightarrow> fault + 'm VerifyError" where
  "handleVerificationFailure failure =
     (case getProperty failure ''pass_name'' of
        Inl e \<Rightarrow> Inl e
      | Inr pass_name \<Rightarrow>
          if pass_name = Value (JString ''BoundedChecker'') then
            (case getProperty failure ''error_data'' of
               Inl e \<Rightarrow> Inl e
             | Inr error_data \<Rightarrow>
                 (case getProperty error_data ''checking_result'' of
                    Inl e \<Rightarrow> Inl e
                  | Inr checking_result \<Rightarrow>
                      if checking_result = Value (JString ''Error'') then
                        (case getProperty error_data ''counterexamples'' of
                           Inl e \<Rightarrow> Inl e
                         | Inr counterexamples \<Rightarrow>
                             Inr \<lparr>explanation = Value (JString ''found a counterexample''),
                                  verifyErrors = [], traces = counterexamples\<rparr>)
                      else if checking_result = Value (JString ''Deadlock'') then
                        (case getProperty error_data ''counterexamples'' of
                           Inl e \<Rightarrow> Inl e
                         | Inr counterexamples \<Rightarrow>
                             Inr \<lparr>explanation = Value (JString ''reached a deadlock''),
                                  verifyErrors = [], traces = counterexamples\<rparr>)
                      else
                        Inl (InternalError ''internal error: unhandled verification error ''
                               checking_result)))
          else
            Inl (InternalError ''internal error: unhandled verification error at pass ''
                   pass_name))"

text \<open>
  \<open>check\<close> after \<open>cmdExecutor.run\<close> has returned its response. \<open>JSON.parse\<close> is a
  parameter: \<open>None\<close> is its \<open>SyntaxError\<close>.
\<close>

definition check ::
  "(string \<Rightarrow> json option) \<Rightarrow> RunResponse \<Rightarrow> fault + ('m VerifyError, unit) Either" where
  "check JSON_parse response =
     (case response of
        Success \<Rightarrow> Inr (Right ())
      | Failure errorType data \<Rightarrow>
          if errorType = ''UNEXPECTED'' then
            (case JSON_parse data of
               None \<Rightarrow> Inl JsonSyntaxError
             | Some errData \<Rightarrow>
                 (case getProperty (Value errData) ''msg'' of
                    Inl e \<Rightarrow> Inl e
                  | Inr msg \<Rightarrow> Inr (err msg)))
          else if errorType = ''PASS_FAILURE'' then
            (case JSON_parse data of
               None \<Rightarrow> Inl JsonSyntaxError
             | Some failure \<Rightarrow>
                 (case handleVerificationFailure (Value failure) of
                    Inl e \<Rightarrow> Inl e
                  | Inr verifyError \<Rightarrow> Inr (Left verifyError)))
          else Inr (err (Value (JString (errorType @ '': '' @ data)))))"

text \<open>
  \<open>JSON.parse\<close> on the response texts used as concrete inputs below.
\<close>

abbreviation parseExamples :: "string \<Rightarrow> json option" where
  \<open>parseExamples \<equiv> (\<lambda>s.
     if s = ''{"msg":"boom"}'' then Some (JObject [(''msg'', JString ''boom'')])
     else if s = ''{"pass_name":"BoundedChecker","error_data":{"checking_result":"Error","counterexamples":[]}}''
       then Some (JObject [(''pass_name'', JString ''BoundedChecker''),
              (''error_data'', JObject [(''checking_result'', JString ''Error''),
                                        (''counterexamples'', JArray [])])])
     else if s = ''{"pass_name":"BoundedChecker","error_data":{"checking_result":"Deadlock","counterexamples":[]}}''
       then Some (JObject [(''pass_name'', JString ''BoundedChecker''),
              (''error_data'', JObject [(''checking_result'', JString ''Deadlock''),
                                        (''counterexamples'', JArray [])])])
     else if s = ''{"pass_name":"BoundedChecker","error_data":{"checking_result":"RuntimeError","counterexamples":[]}}''
       then Some (JObject [(''pass_name'', JString ''BoundedChecker''),
              (''error_data'', JObject [(''checking_result'', JString ''RuntimeError''),
                                        (''counterexamples'', JArray [])])])
     else if s = ''{"pass_name":"TypeChecker","error_data":{}}''
       then Some (JObject [(''pass_name'', JString ''TypeChecker''),
              (''error_data'', JObject [])])
     else if s = ''null'' then Some JNull
     else None)\<close>


section \<open>Properties of the mode lattice\<close>

lemma moreGeneralMode_position:
  "moreGeneralMode a b = (if specPosition b < specPosition a then a else b)"
  by (cases a; cases b; simp add: moreGeneralMode_def findIndex_def modeOrder_def)

lemma specPosition_inj: "specPosition a = specPosition b \<Longrightarrow> a = b"
  by (cases a; cases b; simp)

lemma specPosition_bound: "specPosition a \<le> 5"
  by (cases a; simp)

lemma moreGeneralMode_cases: "moreGeneralMode a b = a \<or> moreGeneralMode a b = b"
  by (simp add: moreGeneralMode_position)

text \<open>
  C7: \<open>moreGeneralMode a b\<close> is the one of \<open>a\<close>, \<open>b\<close> at the later position of the
  order \<open>staticval < staticdef < val < def < action < temporal\<close>; it is idempotent; the
  relation it induces (\<open>a\<close> below \<open>b\<close> when \<open>moreGeneralMode a b = b\<close>) is total and
  transitive; \<open>staticval\<close> is its identity and minimum, \<open>temporal\<close> its absorbing
  maximum.
\<close>

theorem moreGeneralMode_order:
  "moreGeneralMode a b = (if specPosition b < specPosition a then a else b)
   \<and> specPosition (moreGeneralMode a b) = max (specPosition a) (specPosition b)
   \<and> moreGeneralMode a a = a
   \<and> (moreGeneralMode a b = b \<or> moreGeneralMode b a = a)
   \<and> (moreGeneralMode a b = b \<and> moreGeneralMode b c = c \<longrightarrow> moreGeneralMode a c = c)
   \<and> moreGeneralMode staticval b = b \<and> moreGeneralMode b staticval = b
   \<and> moreGeneralMode temporal b = temporal \<and> moreGeneralMode b temporal = temporal"
proof -
  have pos: "specPosition (moreGeneralMode a b) = max (specPosition a) (specPosition b)"
    by (simp add: moreGeneralMode_position)
  have total: "moreGeneralMode a b = b \<or> moreGeneralMode b a = a"
    using specPosition_inj[of a b] by (auto simp: moreGeneralMode_position)
  have trans: "moreGeneralMode a b = b \<and> moreGeneralMode b c = c \<longrightarrow> moreGeneralMode a c = c"
    using specPosition_inj[of a b] specPosition_inj[of b c] specPosition_inj[of a c]
    by (auto simp: moreGeneralMode_position split: if_splits)
  have bot: "moreGeneralMode staticval b = b \<and> moreGeneralMode b staticval = b"
    using specPosition_inj[of b staticval] by (auto simp: moreGeneralMode_position)
  have top: "moreGeneralMode temporal b = temporal \<and> moreGeneralMode b temporal = temporal"
    using specPosition_inj[of b temporal] specPosition_bound[of b]
    by (auto simp: moreGeneralMode_position)
  show ?thesis
    using pos total trans bot top by (simp add: moreGeneralMode_position)
qed

theorem moreGeneralMode_order_witness:
  "moreGeneralMode staticdef val = val \<and> moreGeneralMode val action = action
   \<and> moreGeneralMode staticdef action = action"
  using moreGeneralMode_order[of staticdef val action]
  by (simp add: moreGeneralMode_def findIndex_def modeOrder_def)

section \<open>Properties of the effect reducer\<close>

lemma exitConcrete_closed:
  "m \<in> {staticval, val, action, temporal} \<Longrightarrow>
   exitConcrete base m c \<in> {staticval, val, action, temporal}"
  by (auto simp: exitConcrete_def moreGeneralMode_position)

lemma exitArrow_skip:
  "m \<in> {staticval, val, action, temporal} \<Longrightarrow> exitArrow m ps r = Inr m"
  by (auto simp: exitArrow_def)

lemma walkEffectTrace_closed:
  "m \<in> {staticval, val, action, temporal} \<Longrightarrow>
     \<exists>m' t. walkEffectTrace base m e = Inr (m', t) \<and> walkEffect base m e = Inr m'
        \<and> m' \<in> {staticval, val, action, temporal}
        \<and> set t \<subseteq> {staticval, val, action, temporal}"
  "m \<in> {staticval, val, action, temporal} \<Longrightarrow>
     \<exists>m' t. walkEffectsTrace base m es = Inr (m', t) \<and> walkEffects base m es = Inr m'
        \<and> m' \<in> {staticval, val, action, temporal}
        \<and> set t \<subseteq> {staticval, val, action, temporal}"
proof (induction base m e and base m es rule: walkEffectTrace_walkEffectsTrace.induct)
  case (1 base currentMode c)
  then show ?case using exitConcrete_closed[of currentMode base c] by simp
next
  case (2 base currentMode ps r)
  from 2(1)[OF 2(3)] obtain m1 t1 where m1:
    "walkEffectsTrace base currentMode ps = Inr (m1, t1)"
    "walkEffects base currentMode ps = Inr m1"
    "m1 \<in> {staticval, val, action, temporal}"
    "set t1 \<subseteq> {staticval, val, action, temporal}"
    by blast
  from 2(2)[OF m1(1) refl m1(3)] obtain m2 t2 where m2:
    "walkEffectTrace base m1 r = Inr (m2, t2)"
    "walkEffect base m1 r = Inr m2"
    "m2 \<in> {staticval, val, action, temporal}"
    "set t2 \<subseteq> {staticval, val, action, temporal}"
    by blast
  show ?case using m1 m2 exitArrow_skip[OF m2(3)] by simp
next
  case (3 base currentMode)
  then show ?case by simp
next
  case (4 base currentMode p ps)
  from 4(1)[OF 4(3)] obtain m1 t1 where m1:
    "walkEffectTrace base currentMode p = Inr (m1, t1)"
    "walkEffect base currentMode p = Inr m1"
    "m1 \<in> {staticval, val, action, temporal}"
    "set t1 \<subseteq> {staticval, val, action, temporal}"
    by blast
  from 4(2)[OF m1(1) refl m1(3)] show ?case using m1 by auto
qed

lemma walkEffect_closed:
  assumes "m \<in> {staticval, val, action, temporal}"
  shows "\<exists>m'. walkEffect base m e = Inr m' \<and> m' \<in> {staticval, val, action, temporal}"
  using walkEffectTrace_closed(1)[OF assms, of base e] by blast

lemma walkEffect_staticval:
  "\<exists>m'. walkEffect base staticval e = Inr m' \<and> m' \<in> {staticval, val, action, temporal}"
  by (rule walkEffect_closed) simp

text \<open>
  C2: a concrete node is classified by the first predicate that holds, in the order
  action, temporal, state read, and \<open>staticval\<close> when none holds; visiting the node
  replaces the accumulator by \<open>moreGeneralMode\<close> of the accumulator and that value.
\<close>

theorem exitConcrete_first_match:
  "walkEffect base acc (Concrete c) = Inr (exitConcrete base acc c)
   \<and> (isAction base c \<longrightarrow> exitConcrete base acc c = moreGeneralMode acc action)
   \<and> (\<not> isAction base c \<and> isTemporal base c \<longrightarrow>
        exitConcrete base acc c = moreGeneralMode acc temporal)
   \<and> (\<not> isAction base c \<and> \<not> isTemporal base c \<and> isState base c \<longrightarrow>
        exitConcrete base acc c = moreGeneralMode acc val)
   \<and> (\<not> isAction base c \<and> \<not> isTemporal base c \<and> \<not> isState base c \<longrightarrow>
        exitConcrete base acc c = moreGeneralMode acc staticval)"
  by (simp add: exitConcrete_def)

theorem exitConcrete_first_match_witness:
  "exitConcrete \<lparr>isAction = \<lambda>e. True, isTemporal = \<lambda>e. True, isState = \<lambda>e. True\<rparr> val
      \<lparr>read = ConcreteVars 1 [''x''], update = ConcreteVars 2 [''x'']\<rparr> = action
   \<and> exitConcrete \<lparr>isAction = \<lambda>e. False, isTemporal = \<lambda>e. True, isState = \<lambda>e. True\<rparr> val
      \<lparr>read = ConcreteVars 1 [''x''], update = ConcreteVars 2 []\<rparr> = temporal
   \<and> exitConcrete \<lparr>isAction = \<lambda>e. False, isTemporal = \<lambda>e. False, isState = \<lambda>e. True\<rparr> staticval
      \<lparr>read = ConcreteVars 1 [''x''], update = ConcreteVars 2 []\<rparr> = val
   \<and> exitConcrete \<lparr>isAction = \<lambda>e. False, isTemporal = \<lambda>e. False, isState = \<lambda>e. False\<rparr> val
      \<lparr>read = ConcreteVars 1 [], update = ConcreteVars 2 []\<rparr> = val"
  using
    exitConcrete_first_match[of "\<lparr>isAction = \<lambda>e. True, isTemporal = \<lambda>e. True, isState = \<lambda>e. True\<rparr>"
      val "\<lparr>read = ConcreteVars 1 [''x''], update = ConcreteVars 2 [''x'']\<rparr>"]
    exitConcrete_first_match[of "\<lparr>isAction = \<lambda>e. False, isTemporal = \<lambda>e. True, isState = \<lambda>e. True\<rparr>"
      val "\<lparr>read = ConcreteVars 1 [''x''], update = ConcreteVars 2 []\<rparr>"]
    exitConcrete_first_match[of "\<lparr>isAction = \<lambda>e. False, isTemporal = \<lambda>e. False, isState = \<lambda>e. True\<rparr>"
      staticval "\<lparr>read = ConcreteVars 1 [''x''], update = ConcreteVars 2 []\<rparr>"]
    exitConcrete_first_match[of "\<lparr>isAction = \<lambda>e. False, isTemporal = \<lambda>e. False, isState = \<lambda>e. False\<rparr>"
      val "\<lparr>read = ConcreteVars 1 [], update = ConcreteVars 2 []\<rparr>"]
  by (simp add: moreGeneralMode_def findIndex_def modeOrder_def)

text \<open>
  C9: folding any effect from the initial accumulator \<open>staticval\<close> returns, the
  accumulator is neither \<open>staticdef\<close> nor \<open>def\<close> at any call of \<open>exitArrow\<close>
  (so the body behind its guard never runs), and the output is one of \<open>staticval\<close>,
  \<open>val\<close>, \<open>action\<close>, \<open>temporal\<close>.
\<close>

theorem walkEffect_never_parameterized:
  "\<exists>m t. walkEffectTrace base staticval e = Inr (m, t)
      \<and> walkEffect base staticval e = Inr m
      \<and> (\<forall>a \<in> set t. a \<noteq> staticdef \<and> a \<noteq> def \<and> exitArrow a ps r = Inr a)
      \<and> m \<in> {staticval, val, action, temporal}"
proof -
  obtain m t where mt: "walkEffectTrace base staticval e = Inr (m, t)"
    "walkEffect base staticval e = Inr m"
    "m \<in> {staticval, val, action, temporal}"
    "set t \<subseteq> {staticval, val, action, temporal}"
    using walkEffectTrace_closed(1)[of staticval base e] by auto
  have "\<forall>a \<in> set t. a \<noteq> staticdef \<and> a \<noteq> def \<and> exitArrow a ps r = Inr a"
  proof
    fix a assume "a \<in> set t"
    then have a: "a \<in> {staticval, val, action, temporal}" using mt(4) by blast
    then show "a \<noteq> staticdef \<and> a \<noteq> def \<and> exitArrow a ps r = Inr a"
      using exitArrow_skip[OF a] by auto
  qed
  then show ?thesis using mt by blast
qed

theorem walkEffect_never_parameterized_witness:
  "walkEffectTrace \<lparr>isAction = \<lambda>e. False, isTemporal = \<lambda>e. False, isState = \<lambda>e. True\<rparr> staticval
     (Arrow [Concrete \<lparr>read = ConcreteVars 1 [], update = ConcreteVars 2 []\<rparr>]
            (Concrete \<lparr>read = ConcreteVars 3 [''x''], update = ConcreteVars 4 []\<rparr>))
     = Inr (val, [val])
   \<and> exitArrow val [] (Concrete \<lparr>read = ConcreteVars 3 [''x''], update = ConcreteVars 4 []\<rparr>)
     = Inr val"
  using walkEffect_never_parameterized[of
     "\<lparr>isAction = \<lambda>e. False, isTemporal = \<lambda>e. False, isState = \<lambda>e. True\<rparr>"
     "Arrow [Concrete \<lparr>read = ConcreteVars 1 [], update = ConcreteVars 2 []\<rparr>]
            (Concrete \<lparr>read = ConcreteVars 3 [''x''], update = ConcreteVars 4 []\<rparr>)"
     "[]" "Concrete \<lparr>read = ConcreteVars 3 [''x''], update = ConcreteVars 4 []\<rparr>"]
  by (simp add: exitConcrete_def exitArrow_def moreGeneralMode_def findIndex_def modeOrder_def)


section \<open>Properties of the definition checker\<close>

lemma mapSet_keys: "fst ` set (mapSet m k v) = insert k (fst ` set m)"
  by (induction m k v rule: mapSet.induct) auto

lemma mapSet_distinct: "distinct (map fst m) \<Longrightarrow> distinct (map fst (mapSet m k v))"
proof (induction m k v rule: mapSet.induct)
  case (1 k v)
  then show ?case by simp
next
  case (2 k' v' m k v)
  have "fst ` set (mapSet m k v) = insert k (fst ` set m)" by (rule mapSet_keys)
  with 2 show ?case by auto
qed

lemma mapSet_count:
  "distinct (map fst m) \<Longrightarrow> length (filter (\<lambda>p. fst p = k) (mapSet m k v)) = 1"
proof (induction m k v rule: mapSet.induct)
  case (1 k v)
  then show ?case by simp
next
  case (2 k' v' m k v)
  show ?case
  proof (cases "k' = k")
    case True
    with 2(2) have "filter (\<lambda>p. fst p = k) m = []"
      by (auto simp: filter_empty_conv intro: rev_image_eqI)
    with True show ?thesis by simp
  next
    case False
    with 2 show ?thesis by simp
  qed
qed

lemma mapSet_lookup: "map_of (mapSet m k v) k = Some v"
  by (induction m k v rule: mapSet.induct) auto

lemma mapSet_nonempty: "mapSet m k v \<noteq> []"
  by (induction m k v rule: mapSet.induct) (auto split: if_splits)

text \<open>
  What one call of \<open>exitOpDef\<close> does to a visitor whose accumulator is \<open>staticval\<close>,
  in the vocabulary of \<open>checkDefinitionSpec\<close>.
\<close>

lemma exitOpDef_step:
  assumes "currentMode visitor = staticval"
  shows "exitOpDef base toS visitor d =
     (case checkDefinitionSpec base toS (effects visitor) d of
        Inl e \<Rightarrow> Inl e
      | Inr Accept \<Rightarrow> Inr visitor
      | Inr (TooWeak t) \<Rightarrow> Inr (visitor\<lparr>errors := mapSet (errors visitor) (ident d) t\<rparr>)
      | Inr (TooStrong m) \<Rightarrow>
          Inr (visitor\<lparr>suggestions := mapSet (suggestions visitor) (ident d) m\<rparr>))"
proof (cases "effects visitor (ident d)")
  case None
  then show ?thesis by (simp add: exitOpDef_def checkDefinitionSpec_def)
next
  case (Some effect)
  obtain mode where mode: "walkEffect base staticval effect = Inr mode"
    using walkEffect_staticval[of base effect] by blast
  have reset: "visitor\<lparr>currentMode := staticval\<rparr> = visitor"
    using assms by simp
  show ?thesis
    using moreGeneralMode_cases[of mode "qualifier d"]
    by (auto simp: exitOpDef_def checkDefinitionSpec_def Some assms mode reset Let_def)
qed

text \<open>
  C1: for a definition with an effect in the map, checked by a visitor whose accumulator
  is \<open>staticval\<close>: the fold returns a mode; when it equals the declared qualifier the
  visitor is unchanged; otherwise, when \<open>moreGeneralMode\<close> of the two is the inferred
  mode, one error is set for the definition, with the message
  \<open>Expected <inferred> mode, found: <declared>\<close>, and the suggestions are unchanged;
  when it is the declared qualifier, the inferred mode is set as the suggestion for the
  definition and the errors are unchanged; for unequal modes exactly one of the two
  branches applies.
\<close>

theorem exitOpDef_verdict:
  assumes "effects visitor (ident d) = Some effect"
    and "currentMode visitor = staticval"
  shows "\<exists>mode. walkEffect base staticval effect = Inr mode
     \<and> (mode = qualifier d \<longrightarrow> exitOpDef base toS visitor d = Inr visitor)
     \<and> (mode \<noteq> qualifier d \<and> moreGeneralMode mode (qualifier d) = mode \<longrightarrow>
          exitOpDef base toS visitor d =
            Inr (visitor\<lparr>errors := mapSet (errors visitor) (ident d)
              (ErrorTree (''Checking modes for '' @ toS d)
                 (''Expected '' @ qualifierString mode @ '' mode, found: ''
                    @ qualifierString (qualifier d))
                 [])\<rparr>)
          \<and> (distinct (map fst (errors visitor)) \<longrightarrow>
               length (filter (\<lambda>p. fst p = ident d)
                 (mapSet (errors visitor) (ident d)
                    (ErrorTree (''Checking modes for '' @ toS d)
                       (''Expected '' @ qualifierString mode @ '' mode, found: ''
                          @ qualifierString (qualifier d))
                       []))) = 1))
     \<and> (mode \<noteq> qualifier d \<and> moreGeneralMode mode (qualifier d) = qualifier d \<longrightarrow>
          exitOpDef base toS visitor d =
            Inr (visitor\<lparr>suggestions := mapSet (suggestions visitor) (ident d) mode\<rparr>)
          \<and> map_of (mapSet (suggestions visitor) (ident d) mode) (ident d) = Some mode)
     \<and> (mode \<noteq> qualifier d \<longrightarrow>
          (moreGeneralMode mode (qualifier d) = mode)
            \<noteq> (moreGeneralMode mode (qualifier d) = qualifier d))"
proof -
  obtain mode where mode: "walkEffect base staticval effect = Inr mode"
    using walkEffect_staticval[of base effect] by blast
  have step: "exitOpDef base toS visitor d =
     (if mode = qualifier d then Inr visitor
      else if moreGeneralMode mode (qualifier d) = mode then
        Inr (visitor\<lparr>errors := mapSet (errors visitor) (ident d)
              (ErrorTree (''Checking modes for '' @ toS d)
                 (''Expected '' @ qualifierString mode @ '' mode, found: ''
                    @ qualifierString (qualifier d))
                 [])\<rparr>)
      else Inr (visitor\<lparr>suggestions := mapSet (suggestions visitor) (ident d) mode\<rparr>))"
    by (simp add: exitOpDef_step[OF assms(2)] checkDefinitionSpec_def assms(1) mode)
  have excl: "mode \<noteq> qualifier d \<longrightarrow>
          (moreGeneralMode mode (qualifier d) = mode)
            \<noteq> (moreGeneralMode mode (qualifier d) = qualifier d)"
    using moreGeneralMode_cases[of mode "qualifier d"] by auto
  show ?thesis
    using mode step excl mapSet_count[of "errors visitor" "ident d"]
      mapSet_lookup[of "suggestions visitor" "ident d" mode]
    by auto
qed

theorem exitOpDef_verdict_witness:
  "exitOpDef \<lparr>isAction = \<lambda>e. False, isTemporal = \<lambda>e. False, isState = \<lambda>e. True\<rparr> name
     \<lparr>errors = [], suggestions = [],
      effects = [1 \<mapsto> Concrete \<lparr>read = ConcreteVars 1 [''x''], update = ConcreteVars 2 []\<rparr>],
      currentMode = staticval\<rparr>
     \<lparr>ident = 1, name = ''f'', qualifier = val\<rparr>
   = Inr \<lparr>errors = [], suggestions = [],
      effects = [1 \<mapsto> Concrete \<lparr>read = ConcreteVars 1 [''x''], update = ConcreteVars 2 []\<rparr>],
      currentMode = staticval\<rparr>
   \<and> exitOpDef \<lparr>isAction = \<lambda>e. True, isTemporal = \<lambda>e. False, isState = \<lambda>e. True\<rparr> name
     \<lparr>errors = [], suggestions = [],
      effects = [1 \<mapsto> Concrete \<lparr>read = ConcreteVars 1 [''x''], update = ConcreteVars 2 [''x'']\<rparr>],
      currentMode = staticval\<rparr>
     \<lparr>ident = 1, name = ''f'', qualifier = staticval\<rparr>
   = Inr \<lparr>errors = [(1, ErrorTree ''Checking modes for f''
                          ''Expected action mode, found: staticval'' [])],
      suggestions = [],
      effects = [1 \<mapsto> Concrete \<lparr>read = ConcreteVars 1 [''x''], update = ConcreteVars 2 [''x'']\<rparr>],
      currentMode = staticval\<rparr>
   \<and> exitOpDef \<lparr>isAction = \<lambda>e. False, isTemporal = \<lambda>e. False, isState = \<lambda>e. True\<rparr> name
     \<lparr>errors = [], suggestions = [],
      effects = [1 \<mapsto> Concrete \<lparr>read = ConcreteVars 1 [''x''], update = ConcreteVars 2 []\<rparr>],
      currentMode = staticval\<rparr>
     \<lparr>ident = 1, name = ''f'', qualifier = def\<rparr>
   = Inr \<lparr>errors = [], suggestions = [(1, val)],
      effects = [1 \<mapsto> Concrete \<lparr>read = ConcreteVars 1 [''x''], update = ConcreteVars 2 []\<rparr>],
      currentMode = staticval\<rparr>"
  using
    exitOpDef_verdict[of
      "\<lparr>errors = [], suggestions = [],
        effects = [1 \<mapsto> Concrete \<lparr>read = ConcreteVars 1 [''x''], update = ConcreteVars 2 []\<rparr>],
        currentMode = staticval\<rparr>"
      "\<lparr>ident = 1, name = ''f'', qualifier = val\<rparr>"
      "Concrete \<lparr>read = ConcreteVars 1 [''x''], update = ConcreteVars 2 []\<rparr>"
      "\<lparr>isAction = \<lambda>e. False, isTemporal = \<lambda>e. False, isState = \<lambda>e. True\<rparr>" name]
    exitOpDef_verdict[of
      "\<lparr>errors = [], suggestions = [],
        effects = [1 \<mapsto> Concrete \<lparr>read = ConcreteVars 1 [''x''], update = ConcreteVars 2 [''x'']\<rparr>],
        currentMode = staticval\<rparr>"
      "\<lparr>ident = 1, name = ''f'', qualifier = staticval\<rparr>"
      "Concrete \<lparr>read = ConcreteVars 1 [''x''], update = ConcreteVars 2 [''x'']\<rparr>"
      "\<lparr>isAction = \<lambda>e. True, isTemporal = \<lambda>e. False, isState = \<lambda>e. True\<rparr>" name]
    exitOpDef_verdict[of
      "\<lparr>errors = [], suggestions = [],
        effects = [1 \<mapsto> Concrete \<lparr>read = ConcreteVars 1 [''x''], update = ConcreteVars 2 []\<rparr>],
        currentMode = staticval\<rparr>"
      "\<lparr>ident = 1, name = ''f'', qualifier = def\<rparr>"
      "Concrete \<lparr>read = ConcreteVars 1 [''x''], update = ConcreteVars 2 []\<rparr>"
      "\<lparr>isAction = \<lambda>e. False, isTemporal = \<lambda>e. False, isState = \<lambda>e. True\<rparr>" name]
  by (simp add: exitConcrete_def moreGeneralMode_def findIndex_def modeOrder_def)


section \<open>Properties of the module driver\<close>

lemma walkDefs_collectSpec:
  "currentMode visitor = staticval \<Longrightarrow>
   walkDefs base toS visitor ds =
     (case collectSpec base toS (effects visitor) (errors visitor, suggestions visitor) ds of
        Inl e \<Rightarrow> Inl e
      | Inr (errs, suggs) \<Rightarrow> Inr (visitor\<lparr>errors := errs, suggestions := suggs\<rparr>))"
proof (induction ds arbitrary: visitor)
  case Nil
  then show ?case by simp
next
  case (Cons d ds)
  show ?case
  proof (cases "checkDefinitionSpec base toS (effects visitor) d")
    case (Inl e)
    then show ?thesis by (simp add: exitOpDef_step[OF Cons.prems])
  next
    case (Inr verdict)
    show ?thesis
    proof (cases verdict)
      case Accept
      then show ?thesis
        using Inr Cons.IH[OF Cons.prems]
        by (simp add: exitOpDef_step[OF Cons.prems] split: sum.splits prod.splits)
    next
      case (TooWeak t)
      have "currentMode (visitor\<lparr>errors := mapSet (errors visitor) (ident d) t\<rparr>) = staticval"
        using Cons.prems by simp
      from Cons.IH[OF this] show ?thesis
        using Inr TooWeak
        by (simp add: exitOpDef_step[OF Cons.prems] split: sum.splits prod.splits)
    next
      case (TooStrong m)
      have "currentMode (visitor\<lparr>suggestions := mapSet (suggestions visitor) (ident d) m\<rparr>)
              = staticval"
        using Cons.prems by simp
      from Cons.IH[OF this] show ?thesis
        using Inr TooStrong
        by (simp add: exitOpDef_step[OF Cons.prems] split: sum.splits prod.splits)
    qed
  qed
qed

lemma checkModes_collectSpec:
  "checkModes base toS m effs =
     (case collectSpec base toS effs ([], []) (defs m) of
        Inl e \<Rightarrow> Inl e
      | Inr (errs, suggs) \<Rightarrow> (if errs \<noteq> [] then Inr (Left errs) else Inr (Right suggs)))"
proof -
  have "currentMode (newModeCheckerVisitor effs) = staticval"
    by (simp add: newModeCheckerVisitor_def)
  from walkDefs_collectSpec[OF this, of base toS "defs m"] show ?thesis
    by (simp add: checkModes_def walkModule_def newModeCheckerVisitor_def
        split: sum.splits prod.splits)
qed

lemma checkDefinitionSpec_present:
  assumes "effs (ident d) \<noteq> None"
  shows "(checkDefinitionSpec base toS effs d = Inr Accept
            \<and> \<not> tooWeak base effs d \<and> \<not> tooStrong base effs d)
       \<or> ((\<exists>t. checkDefinitionSpec base toS effs d = Inr (TooWeak t))
            \<and> tooWeak base effs d \<and> \<not> tooStrong base effs d)
       \<or> ((\<exists>m. checkDefinitionSpec base toS effs d = Inr (TooStrong m))
            \<and> \<not> tooWeak base effs d \<and> tooStrong base effs d)"
proof -
  from assms obtain effect where e: "effs (ident d) = Some effect" by blast
  obtain mode where mode: "walkEffect base staticval effect = Inr mode"
    using walkEffect_staticval[of base effect] by blast
  show ?thesis
    using moreGeneralMode_cases[of mode "qualifier d"]
    by (auto simp: checkDefinitionSpec_def tooWeak_def tooStrong_def e mode)
qed

lemma tooWeak_Cons:
  "ident ` {x \<in> set (d # ds). tooWeak base effs x} =
     (if tooWeak base effs d then insert (ident d) (ident ` {x \<in> set ds. tooWeak base effs x})
      else ident ` {x \<in> set ds. tooWeak base effs x})"
  by auto

lemma tooStrong_Cons:
  "ident ` {x \<in> set (d # ds). tooStrong base effs x} =
     (if tooStrong base effs d
      then insert (ident d) (ident ` {x \<in> set ds. tooStrong base effs x})
      else ident ` {x \<in> set ds. tooStrong base effs x})"
  by auto

lemma collectSpec_present:
  "\<forall>d \<in> set ds. effs (ident d) \<noteq> None \<Longrightarrow>
   \<exists>errs' suggs'. collectSpec base toS effs (errs, suggs) ds = Inr (errs', suggs')
      \<and> fst ` set errs' = fst ` set errs \<union> ident ` {d \<in> set ds. tooWeak base effs d}
      \<and> fst ` set suggs' = fst ` set suggs \<union> ident ` {d \<in> set ds. tooStrong base effs d}"
proof (induction ds arbitrary: errs suggs)
  case Nil
  then show ?case by simp
next
  case (Cons d ds)
  then have d: "effs (ident d) \<noteq> None" and ds: "\<forall>d \<in> set ds. effs (ident d) \<noteq> None"
    by simp_all
  consider
    (accept) "checkDefinitionSpec base toS effs d = Inr Accept"
      "\<not> tooWeak base effs d" "\<not> tooStrong base effs d"
  | (weak) t where "checkDefinitionSpec base toS effs d = Inr (TooWeak t)"
      "tooWeak base effs d" "\<not> tooStrong base effs d"
  | (strong) m where "checkDefinitionSpec base toS effs d = Inr (TooStrong m)"
      "\<not> tooWeak base effs d" "tooStrong base effs d"
    using checkDefinitionSpec_present[where effs = effs and d = d and base = base and toS = toS] d
    by blast
  then show ?case
  proof cases
    case accept
    from Cons.IH[OF ds, of errs suggs] obtain errs' suggs' where r:
      "collectSpec base toS effs (errs, suggs) ds = Inr (errs', suggs')"
      "fst ` set errs' = fst ` set errs \<union> ident ` {d \<in> set ds. tooWeak base effs d}"
      "fst ` set suggs' = fst ` set suggs \<union> ident ` {d \<in> set ds. tooStrong base effs d}"
      by (elim exE conjE) (rule that; assumption)
    have c: "collectSpec base toS effs (errs, suggs) (d # ds) = Inr (errs', suggs')"
      by (simp add: accept(1) r(1))
    have e: "fst ` set errs'
        = fst ` set errs \<union> ident ` {x \<in> set (d # ds). tooWeak base effs x}"
      unfolding tooWeak_Cons r(2) using accept(2) by simp
    have s: "fst ` set suggs'
        = fst ` set suggs \<union> ident ` {x \<in> set (d # ds). tooStrong base effs x}"
      unfolding tooStrong_Cons r(3) using accept(3) by simp
    show ?thesis
      by (rule exI[of _ errs'], rule exI[of _ suggs']) (rule conjI[OF c conjI[OF e s]])
  next
    case weak
    from Cons.IH[OF ds, of "mapSet errs (ident d) t" suggs] obtain errs' suggs' where r:
      "collectSpec base toS effs (mapSet errs (ident d) t, suggs) ds = Inr (errs', suggs')"
      "fst ` set errs' = fst ` set (mapSet errs (ident d) t)
         \<union> ident ` {d \<in> set ds. tooWeak base effs d}"
      "fst ` set suggs' = fst ` set suggs \<union> ident ` {d \<in> set ds. tooStrong base effs d}"
      by (elim exE conjE) (rule that; assumption)
    have c: "collectSpec base toS effs (errs, suggs) (d # ds) = Inr (errs', suggs')"
      by (simp add: weak(1) r(1))
    have e: "fst ` set errs'
        = fst ` set errs \<union> ident ` {x \<in> set (d # ds). tooWeak base effs x}"
      unfolding tooWeak_Cons r(2) mapSet_keys using weak(2) by simp
    have s: "fst ` set suggs'
        = fst ` set suggs \<union> ident ` {x \<in> set (d # ds). tooStrong base effs x}"
      unfolding tooStrong_Cons r(3) using weak(3) by simp
    show ?thesis
      by (rule exI[of _ errs'], rule exI[of _ suggs']) (rule conjI[OF c conjI[OF e s]])
  next
    case strong
    from Cons.IH[OF ds, of errs "mapSet suggs (ident d) m"] obtain errs' suggs' where r:
      "collectSpec base toS effs (errs, mapSet suggs (ident d) m) ds = Inr (errs', suggs')"
      "fst ` set errs' = fst ` set errs \<union> ident ` {d \<in> set ds. tooWeak base effs d}"
      "fst ` set suggs' = fst ` set (mapSet suggs (ident d) m)
         \<union> ident ` {d \<in> set ds. tooStrong base effs d}"
      by (elim exE conjE) (rule that; assumption)
    have c: "collectSpec base toS effs (errs, suggs) (d # ds) = Inr (errs', suggs')"
      by (simp add: strong(1) r(1))
    have e: "fst ` set errs'
        = fst ` set errs \<union> ident ` {x \<in> set (d # ds). tooWeak base effs x}"
      unfolding tooWeak_Cons r(2) using strong(2) by simp
    have s: "fst ` set suggs'
        = fst ` set suggs \<union> ident ` {x \<in> set (d # ds). tooStrong base effs x}"
      unfolding tooStrong_Cons r(3) mapSet_keys using strong(3) by simp
    show ?thesis
      by (rule exI[of _ errs'], rule exI[of _ suggs']) (rule conjI[OF c conjI[OF e s]])
  qed
qed

lemma collectSpec_missing:
  "\<forall>d' \<in> set ds1. effs (ident d') \<noteq> None \<Longrightarrow> effs (ident d) = None \<Longrightarrow>
   collectSpec base toS effs (errs, suggs) (ds1 @ d # ds2)
     = Inl (Error (''effect not found for definition '' @ name d))"
proof (induction ds1 arbitrary: errs suggs)
  case Nil
  then show ?case by (simp add: checkDefinitionSpec_def)
next
  case (Cons a ds1)
  then have a: "effs (ident a) \<noteq> None" by simp
  from Cons have IH: "\<And>errs suggs. collectSpec base toS effs (errs, suggs) (ds1 @ d # ds2)
     = Inl (Error (''effect not found for definition '' @ name d))" by simp
  show ?case
    using checkDefinitionSpec_present[where effs = effs and d = a and base = base and toS = toS]
      a IH
    by auto
qed

lemma map_of_mapSet:
  "map_of (mapSet m k v) k' = (if k' = k then Some v else map_of m k')"
  by (induction m k v rule: mapSet.induct) auto

lemma collectSpec_other_keys:
  "collectSpec base toS effs (errs, suggs) ds = Inr (errs', suggs') \<Longrightarrow>
   k \<notin> ident ` set ds \<Longrightarrow>
   map_of errs' k = map_of errs k \<and> map_of suggs' k = map_of suggs k"
proof (induction ds arbitrary: errs suggs)
  case Nil
  then show ?case by simp
next
  case (Cons a ds)
  from Cons.prems(2) have k: "k \<noteq> ident a" "k \<notin> ident ` set ds" by auto
  show ?case
  proof (cases "checkDefinitionSpec base toS effs a")
    case (Inl e)
    with Cons.prems(1) show ?thesis by simp
  next
    case (Inr verdict)
    show ?thesis
    proof (cases verdict)
      case Accept
      with Inr Cons.prems(1) have "collectSpec base toS effs (errs, suggs) ds = Inr (errs', suggs')"
        by simp
      from Cons.IH[OF this k(2)] show ?thesis .
    next
      case (TooWeak t)
      with Inr Cons.prems(1)
      have "collectSpec base toS effs (mapSet errs (ident a) t, suggs) ds = Inr (errs', suggs')"
        by simp
      from Cons.IH[OF this k(2)] show ?thesis using k(1) by (simp add: map_of_mapSet)
    next
      case (TooStrong q)
      with Inr Cons.prems(1)
      have "collectSpec base toS effs (errs, mapSet suggs (ident a) q) ds = Inr (errs', suggs')"
        by simp
      from Cons.IH[OF this k(2)] show ?thesis using k(1) by (simp add: map_of_mapSet)
    qed
  qed
qed

lemma collectSpec_lookup:
  "collectSpec base toS effs (errs, suggs) ds = Inr (errs', suggs') \<Longrightarrow>
   distinct (map ident ds) \<Longrightarrow> d \<in> set ds \<Longrightarrow>
   (checkDefinitionSpec base toS effs d = Inr (TooWeak t) \<longrightarrow> map_of errs' (ident d) = Some t)
   \<and> (checkDefinitionSpec base toS effs d = Inr (TooStrong q) \<longrightarrow>
        map_of suggs' (ident d) = Some q)"
proof (induction ds arbitrary: errs suggs)
  case Nil
  then show ?case by simp
next
  case (Cons a ds)
  from Cons.prems(2) have fresh: "ident a \<notin> ident ` set ds" and dist: "distinct (map ident ds)"
    by auto
  show ?case
  proof (cases "checkDefinitionSpec base toS effs a")
    case (Inl e)
    with Cons.prems(1) show ?thesis by simp
  next
    case (Inr verdict)
    show ?thesis
    proof (cases verdict)
      case Accept
      with Inr Cons.prems(1)
      have run: "collectSpec base toS effs (errs, suggs) ds = Inr (errs', suggs')"
        by simp
      show ?thesis
      proof (cases "d = a")
        case True
        then show ?thesis using Inr Accept by simp
      next
        case False
        with Cons.prems(3) have "d \<in> set ds" by simp
        from Cons.IH[OF run dist this] show ?thesis .
      qed
    next
      case (TooWeak t')
      with Inr Cons.prems(1)
      have run: "collectSpec base toS effs (mapSet errs (ident a) t', suggs) ds
                   = Inr (errs', suggs')"
        by simp
      show ?thesis
      proof (cases "d = a")
        case True
        from collectSpec_other_keys[OF run fresh]
        have "map_of errs' (ident a) = Some t'" by (simp add: map_of_mapSet)
        then show ?thesis using True Inr TooWeak by simp
      next
        case False
        with Cons.prems(3) have "d \<in> set ds" by simp
        from Cons.IH[OF run dist this] show ?thesis .
      qed
    next
      case (TooStrong q')
      with Inr Cons.prems(1)
      have run: "collectSpec base toS effs (errs, mapSet suggs (ident a) q') ds
                   = Inr (errs', suggs')"
        by simp
      show ?thesis
      proof (cases "d = a")
        case True
        from collectSpec_other_keys[OF run fresh]
        have "map_of suggs' (ident a) = Some q'" by (simp add: map_of_mapSet)
        then show ?thesis using True Inr TooStrong by simp
      next
        case False
        with Cons.prems(3) have "d \<in> set ds" by simp
        from Cons.IH[OF run dist this] show ?thesis .
      qed
    qed
  qed
qed

text \<open>
  C5: when every definition of the module has an effect in the map, the walk returns a
  visitor and \<open>checkModes\<close> returns that visitor's maps: \<open>Left\<close> with its error map,
  which is non-empty, exactly when some definition is too weak, and otherwise \<open>Right\<close>
  with its suggestion map. The keys of the error map are the identifiers of the
  definitions that are too weak, those of the suggestion map the identifiers of the
  definitions that are too strong; when the identifiers are distinct, each of these
  definitions has under its identifier the error, or the inferred mode, that its own
  check produces. On a module without definitions the result is \<open>Right\<close> with the
  empty map; the result is never both.
\<close>

theorem checkModes_result:
  assumes "\<forall>d \<in> set (defs m). effs (ident d) \<noteq> None"
  shows "\<exists>visitor. walkModule base toS (newModeCheckerVisitor effs) m = Inr visitor
       \<and> ((\<exists>d \<in> set (defs m). tooWeak base effs d) \<longrightarrow>
            errors visitor \<noteq> [] \<and> checkModes base toS m effs = Inr (Left (errors visitor)))
       \<and> (\<not> (\<exists>d \<in> set (defs m). tooWeak base effs d) \<longrightarrow>
            errors visitor = []
            \<and> checkModes base toS m effs = Inr (Right (suggestions visitor)))
       \<and> fst ` set (errors visitor) = ident ` {d \<in> set (defs m). tooWeak base effs d}
       \<and> fst ` set (suggestions visitor) = ident ` {d \<in> set (defs m). tooStrong base effs d}
       \<and> (distinct (map ident (defs m)) \<longrightarrow>
            (\<forall>d \<in> set (defs m). \<forall>t q.
               (checkDefinitionSpec base toS effs d = Inr (TooWeak t) \<longrightarrow>
                  map_of (errors visitor) (ident d) = Some t)
               \<and> (checkDefinitionSpec base toS effs d = Inr (TooStrong q) \<longrightarrow>
                  map_of (suggestions visitor) (ident d) = Some q)))
       \<and> (defs m = [] \<longrightarrow> checkModes base toS m effs = Inr (Right []))
       \<and> ((\<exists>errs. checkModes base toS m effs = Inr (Left errs))
            \<noteq> (\<exists>suggs. checkModes base toS m effs = Inr (Right suggs)))"
proof -
  from collectSpec_present[OF assms, of base toS "[]" "[]"] obtain errs suggs where r:
    "collectSpec base toS effs ([], []) (defs m) = Inr (errs, suggs)"
    "fst ` set errs = fst ` set ([] :: (int \<times> ErrorTree) list) \<union> ident ` {d \<in> set (defs m). tooWeak base effs d}"
    "fst ` set suggs = fst ` set ([] :: (int \<times> OpQualifier) list) \<union> ident ` {d \<in> set (defs m). tooStrong base effs d}"
    by (elim exE conjE) (rule that; assumption)
  define visitor where
    "visitor = (newModeCheckerVisitor effs)\<lparr>errors := errs, suggestions := suggs\<rparr>"
  have ve: "errors visitor = errs" and vs: "suggestions visitor = suggs"
    by (simp_all add: visitor_def)
  have "currentMode (newModeCheckerVisitor effs) = staticval"
    by (simp add: newModeCheckerVisitor_def)
  from walkDefs_collectSpec[OF this, of base toS "defs m"]
  have w: "walkModule base toS (newModeCheckerVisitor effs) m = Inr visitor"
    by (simp add: walkModule_def newModeCheckerVisitor_def r(1) visitor_def)
  have keysE: "fst ` set (errors visitor) = ident ` {d \<in> set (defs m). tooWeak base effs d}"
    using r(2) by (simp add: ve)
  have keysS: "fst ` set (suggestions visitor)
      = ident ` {d \<in> set (defs m). tooStrong base effs d}"
    using r(3) by (simp add: vs)
  have res: "checkModes base toS m effs
      = (if errs \<noteq> [] then Inr (Left errs) else Inr (Right suggs))"
    by (simp add: checkModes_collectSpec r(1))
  have ne: "errs \<noteq> [] \<longleftrightarrow> (\<exists>d \<in> set (defs m). tooWeak base effs d)"
  proof -
    have "errs \<noteq> [] \<longleftrightarrow> fst ` set (errors visitor) \<noteq> {}" by (simp add: ve)
    also have "\<dots> \<longleftrightarrow> (\<exists>d \<in> set (defs m). tooWeak base effs d)"
      unfolding keysE by blast
    finally show ?thesis .
  qed
  have c1: "(\<exists>d \<in> set (defs m). tooWeak base effs d) \<longrightarrow>
            errors visitor \<noteq> [] \<and> checkModes base toS m effs = Inr (Left (errors visitor))"
  proof
    assume "\<exists>d \<in> set (defs m). tooWeak base effs d"
    then have a: "errs \<noteq> []" using ne by simp
    then have "checkModes base toS m effs = Inr (Left errs)" using res by simp
    with a show "errors visitor \<noteq> []
        \<and> checkModes base toS m effs = Inr (Left (errors visitor))"
      by (simp add: ve)
  qed
  have c2: "\<not> (\<exists>d \<in> set (defs m). tooWeak base effs d) \<longrightarrow>
            errors visitor = []
            \<and> checkModes base toS m effs = Inr (Right (suggestions visitor))"
  proof
    assume "\<not> (\<exists>d \<in> set (defs m). tooWeak base effs d)"
    then have a: "errs = []" using ne by blast
    then have "checkModes base toS m effs = Inr (Right suggs)" using res by simp
    with a show "errors visitor = []
        \<and> checkModes base toS m effs = Inr (Right (suggestions visitor))"
      by (simp add: ve vs)
  qed
  have c5: "distinct (map ident (defs m)) \<longrightarrow>
            (\<forall>d \<in> set (defs m). \<forall>t q.
               (checkDefinitionSpec base toS effs d = Inr (TooWeak t) \<longrightarrow>
                  map_of (errors visitor) (ident d) = Some t)
               \<and> (checkDefinitionSpec base toS effs d = Inr (TooStrong q) \<longrightarrow>
                  map_of (suggestions visitor) (ident d) = Some q))"
  proof (intro impI ballI allI)
    fix d t q
    assume dist: "distinct (map ident (defs m))" and d: "d \<in> set (defs m)"
    from collectSpec_lookup[OF r(1) dist d, of t q]
    show "(checkDefinitionSpec base toS effs d = Inr (TooWeak t) \<longrightarrow>
                  map_of (errors visitor) (ident d) = Some t)
               \<and> (checkDefinitionSpec base toS effs d = Inr (TooStrong q) \<longrightarrow>
                  map_of (suggestions visitor) (ident d) = Some q)"
      by (simp only: ve vs)
  qed
  have c6: "defs m = [] \<longrightarrow> checkModes base toS m effs = Inr (Right [])"
    by (simp add: checkModes_collectSpec)
  have c7: "(\<exists>errs. checkModes base toS m effs = Inr (Left errs))
            \<noteq> (\<exists>suggs. checkModes base toS m effs = Inr (Right suggs))"
    by (cases "errs = []") (simp_all add: res)
  show ?thesis
    by (rule exI[of _ visitor])
       (rule conjI[OF w conjI[OF c1 conjI[OF c2 conjI[OF keysE conjI[OF keysS
          conjI[OF c5 conjI[OF c6 c7]]]]]]])
qed

theorem checkModes_result_witness:
  "checkModes stateBase name
     \<lparr>defs = [\<lparr>ident = 1, name = ''f'', qualifier = val\<rparr>,
              \<lparr>ident = 2, name = ''g'', qualifier = staticval\<rparr>]\<rparr>
     [1 \<mapsto> readsX, 2 \<mapsto> updatesX]
   = Inr (Left [(2, ErrorTree ''Checking modes for g''
                    ''Expected action mode, found: staticval'' [])])
   \<and> checkModes stateBase name
     \<lparr>defs = [\<lparr>ident = 1, name = ''f'', qualifier = val\<rparr>,
              \<lparr>ident = 2, name = ''g'', qualifier = temporal\<rparr>]\<rparr>
     [1 \<mapsto> readsX, 2 \<mapsto> updatesX]
   = Inr (Right [(2, action)])
   \<and> checkModes stateBase name \<lparr>defs = []\<rparr> [1 \<mapsto> readsX, 2 \<mapsto> updatesX]
   = Inr (Right [])"
  using
    checkModes_result[of
      "\<lparr>defs = [\<lparr>ident = 1, name = ''f'', qualifier = val\<rparr>,
               \<lparr>ident = 2, name = ''g'', qualifier = staticval\<rparr>]\<rparr>"
      "[1 \<mapsto> readsX, 2 \<mapsto> updatesX]" stateBase name]
    checkModes_result[of
      "\<lparr>defs = [\<lparr>ident = 1, name = ''f'', qualifier = val\<rparr>,
               \<lparr>ident = 2, name = ''g'', qualifier = temporal\<rparr>]\<rparr>"
      "[1 \<mapsto> readsX, 2 \<mapsto> updatesX]" stateBase name]
    checkModes_result[of "\<lparr>defs = []\<rparr>" "[1 \<mapsto> readsX, 2 \<mapsto> updatesX]" stateBase name]
  by (simp add: checkModes_def walkModule_def newModeCheckerVisitor_def exitOpDef_def
      exitConcrete_def moreGeneralMode_def findIndex_def modeOrder_def)

text \<open>
  C6: when some definition of the module has no effect in the map, \<open>checkModes\<close>
  throws the error \<open>effect not found for definition <name>\<close> for the first such
  definition of the walk and returns no map; when every definition has an effect, the
  walk visits all of them: every definition that is too weak has its error in the
  visitor, also after an earlier error, and every definition that is too strong has
  its suggestion.
\<close>

theorem checkModes_missing_effect:
  "((\<exists>d \<in> set (defs m). effs (ident d) = None) \<longrightarrow>
      (\<exists>ds1 d ds2. defs m = ds1 @ d # ds2
         \<and> (\<forall>d' \<in> set ds1. effs (ident d') \<noteq> None) \<and> effs (ident d) = None
         \<and> checkModes base toS m effs
             = Inl (Error (''effect not found for definition '' @ name d))))
   \<and> ((\<forall>d \<in> set (defs m). effs (ident d) \<noteq> None) \<longrightarrow>
      (\<exists>visitor. walkModule base toS (newModeCheckerVisitor effs) m = Inr visitor
         \<and> (\<forall>d \<in> set (defs m). tooWeak base effs d \<longrightarrow> ident d \<in> fst ` set (errors visitor))
         \<and> (\<forall>d \<in> set (defs m).
               tooStrong base effs d \<longrightarrow> ident d \<in> fst ` set (suggestions visitor))))"
proof (intro conjI impI)
  assume "\<exists>d \<in> set (defs m). effs (ident d) = None"
  then obtain ds1 d ds2 where split: "defs m = ds1 @ d # ds2" "effs (ident d) = None"
    "\<forall>d' \<in> set ds1. \<not> effs (ident d') = None"
    using split_list_first_prop[of "defs m" "\<lambda>d. effs (ident d) = None"] by blast
  have "checkModes base toS m effs
      = Inl (Error (''effect not found for definition '' @ name d))"
    using collectSpec_missing[OF split(3) split(2), of base toS "[]" "[]" ds2]
    by (simp add: checkModes_collectSpec split(1))
  with split show "\<exists>ds1 d ds2. defs m = ds1 @ d # ds2
         \<and> (\<forall>d' \<in> set ds1. effs (ident d') \<noteq> None) \<and> effs (ident d) = None
         \<and> checkModes base toS m effs
             = Inl (Error (''effect not found for definition '' @ name d))"
    by blast
next
  assume present: "\<forall>d \<in> set (defs m). effs (ident d) \<noteq> None"
  from collectSpec_present[OF present, of base toS "[]" "[]"] obtain errs suggs where r:
    "collectSpec base toS effs ([], []) (defs m) = Inr (errs, suggs)"
    "fst ` set errs = fst ` set ([] :: (int \<times> ErrorTree) list) \<union> ident ` {d \<in> set (defs m). tooWeak base effs d}"
    "fst ` set suggs = fst ` set ([] :: (int \<times> OpQualifier) list) \<union> ident ` {d \<in> set (defs m). tooStrong base effs d}"
    by (elim exE conjE) (rule that; assumption)
  have "currentMode (newModeCheckerVisitor effs) = staticval"
    by (simp add: newModeCheckerVisitor_def)
  from walkDefs_collectSpec[OF this, of base toS "defs m"]
  have w: "walkModule base toS (newModeCheckerVisitor effs) m
      = Inr ((newModeCheckerVisitor effs)\<lparr>errors := errs, suggestions := suggs\<rparr>)"
    by (simp add: walkModule_def newModeCheckerVisitor_def r(1))
  have e: "\<forall>d \<in> set (defs m). tooWeak base effs d \<longrightarrow>
      ident d \<in> fst ` set (errors ((newModeCheckerVisitor effs)\<lparr>errors := errs, suggestions := suggs\<rparr>))"
    using r(2) by simp
  have s: "\<forall>d \<in> set (defs m). tooStrong base effs d \<longrightarrow>
      ident d \<in> fst ` set (suggestions ((newModeCheckerVisitor effs)\<lparr>errors := errs, suggestions := suggs\<rparr>))"
    using r(3) by simp
  show "\<exists>visitor. walkModule base toS (newModeCheckerVisitor effs) m = Inr visitor
         \<and> (\<forall>d \<in> set (defs m). tooWeak base effs d \<longrightarrow> ident d \<in> fst ` set (errors visitor))
         \<and> (\<forall>d \<in> set (defs m).
               tooStrong base effs d \<longrightarrow> ident d \<in> fst ` set (suggestions visitor))"
    by (rule exI[of _ "(newModeCheckerVisitor effs)\<lparr>errors := errs, suggestions := suggs\<rparr>"])
       (rule conjI[OF w conjI[OF e s]])
qed

theorem checkModes_missing_effect_witness:
  "checkModes stateBase name
     \<lparr>defs = [\<lparr>ident = 1, name = ''f'', qualifier = staticval\<rparr>,
              \<lparr>ident = 7, name = ''h'', qualifier = val\<rparr>,
              \<lparr>ident = 2, name = ''g'', qualifier = staticval\<rparr>]\<rparr>
     [1 \<mapsto> readsX, 2 \<mapsto> updatesX]
   = Inl (Error ''effect not found for definition h'')
   \<and> walkModule stateBase name (newModeCheckerVisitor [1 \<mapsto> readsX, 2 \<mapsto> updatesX, 3 \<mapsto> readsX])
     \<lparr>defs = [\<lparr>ident = 1, name = ''f'', qualifier = staticval\<rparr>,
              \<lparr>ident = 3, name = ''k'', qualifier = def\<rparr>,
              \<lparr>ident = 2, name = ''g'', qualifier = staticval\<rparr>]\<rparr>
   = Inr \<lparr>errors = [(1, ErrorTree ''Checking modes for f''
                          ''Expected val mode, found: staticval'' []),
                     (2, ErrorTree ''Checking modes for g''
                          ''Expected action mode, found: staticval'' [])],
          suggestions = [(3, val)],
          effects = [1 \<mapsto> readsX, 2 \<mapsto> updatesX, 3 \<mapsto> readsX],
          currentMode = staticval\<rparr>"
  using
    checkModes_missing_effect[of
      "\<lparr>defs = [\<lparr>ident = 1, name = ''f'', qualifier = staticval\<rparr>,
               \<lparr>ident = 7, name = ''h'', qualifier = val\<rparr>,
               \<lparr>ident = 2, name = ''g'', qualifier = staticval\<rparr>]\<rparr>"
      "[1 \<mapsto> readsX, 2 \<mapsto> updatesX]" stateBase name]
    checkModes_missing_effect[of
      "\<lparr>defs = [\<lparr>ident = 1, name = ''f'', qualifier = staticval\<rparr>,
               \<lparr>ident = 3, name = ''k'', qualifier = def\<rparr>,
               \<lparr>ident = 2, name = ''g'', qualifier = staticval\<rparr>]\<rparr>"
      "[1 \<mapsto> readsX, 2 \<mapsto> updatesX, 3 \<mapsto> readsX]" stateBase name]
  by (simp add: checkModes_def walkModule_def newModeCheckerVisitor_def exitOpDef_def
      exitConcrete_def moreGeneralMode_def findIndex_def modeOrder_def)

text \<open>
  C8: the result of \<open>checkModes\<close> is the result of the checker that keeps no
  accumulator: every definition is judged from its own effect folded from \<open>staticval\<close>,
  whatever was checked before it, and every call starts from a new visitor, so the
  result depends on the module and the effect map only.
\<close>

theorem checkModes_pure:
  "checkModes base toS m effs = checkModesSpec base toS m effs"
  by (simp add: checkModes_collectSpec checkModesSpec_def)


section \<open>The arrow rule on concrete effects\<close>








text \<open>
  C4: the fold of an arrow effect from \<open>staticval\<close> never returns \<open>def\<close>. For the
  arrow whose parameter reads nothing (it classifies as \<open>staticval\<close>) and whose result
  reads the variable \<open>x\<close>, absent from the parameter's reads, the specification's rule
  gives \<open>def\<close> and the fold returns \<open>val\<close>, the classification of the result.
\<close>

theorem walkEffect_arrow_not_def:
  "walkEffect base staticval (Arrow ps r) \<noteq> Inr def
   \<and> walkEffect stateBase staticval readsNothing = Inr staticval
   \<and> walkEffect stateBase staticval (Arrow [readsNothing] readsX) = Inr val
   \<and> specExitArrow [readsNothing] readsX = def"
proof -
  obtain m where m: "walkEffect base staticval (Arrow ps r) = Inr m"
    "m \<in> {staticval, val, action, temporal}"
    using walkEffect_staticval[of base "Arrow ps r"] by blast
  then have "walkEffect base staticval (Arrow ps r) \<noteq> Inr def" by auto
  moreover have "walkEffect stateBase staticval readsNothing = Inr staticval"
    by (simp add: exitConcrete_def moreGeneralMode_def findIndex_def modeOrder_def)
  moreover have "walkEffect stateBase staticval (Arrow [readsNothing] readsX) = Inr val"
    by (simp add: exitConcrete_def exitArrow_def moreGeneralMode_def findIndex_def
        modeOrder_def)
  moreover have "specExitArrow [readsNothing] readsX = def"
    by (simp add: specExitArrow_def specParamReads_def)
  ultimately show ?thesis by blast
qed


section \<open>Properties of the verifier's \<open>check\<close> command\<close>

lemma getProperty_object:
  "getProperty (Value (JObject kvs)) k
     = Inr (case map_of kvs k of None \<Rightarrow> Undefined | Some v \<Rightarrow> Value v)"
  by simp

text \<open>
  C10, as the code has it: a success response gives the success value; a failure of an
  error type other than \<open>UNEXPECTED\<close> and \<open>PASS_FAILURE\<close> gives a failure value
  carrying \<open>errorType: data\<close>; an \<open>UNEXPECTED\<close> failure whose data parses to an object
  gives a failure value carrying the object's \<open>msg\<close>; a \<open>PASS_FAILURE\<close> whose data
  parses to an object of the pass \<open>BoundedChecker\<close> with the checking result \<open>Error\<close>
  or \<open>Deadlock\<close> gives a failure value carrying \<open>found a counterexample\<close> or
  \<open>reached a deadlock\<close> and the counterexamples as traces. A \<open>PASS_FAILURE\<close> of
  another pass, or of \<open>BoundedChecker\<close> with another checking result, throws an
  internal error and gives no value.
\<close>

theorem check_response:
  "check parse Success = Inr (Right ())
   \<and> (errorType \<noteq> ''UNEXPECTED'' \<and> errorType \<noteq> ''PASS_FAILURE'' \<longrightarrow>
        check parse (Failure errorType d) = Inr (err (Value (JString (errorType @ '': '' @ d)))))
   \<and> (parse d = Some (JObject kvs) \<longrightarrow>
        check parse (Failure ''UNEXPECTED'' d)
          = Inr (err (case map_of kvs ''msg'' of None \<Rightarrow> Undefined | Some v \<Rightarrow> Value v)))
   \<and> (parse d = Some (JObject kvs)
        \<and> map_of kvs ''pass_name'' = Some (JString ''BoundedChecker'')
        \<and> map_of kvs ''error_data'' = Some (JObject ed)
        \<and> map_of ed ''checking_result'' = Some (JString ''Error'') \<longrightarrow>
        check parse (Failure ''PASS_FAILURE'' d)
          = Inr (Left \<lparr>explanation = Value (JString ''found a counterexample''),
                       verifyErrors = [],
                       traces = (case map_of ed ''counterexamples'' of
                                   None \<Rightarrow> Undefined | Some v \<Rightarrow> Value v)\<rparr>))
   \<and> (parse d = Some (JObject kvs)
        \<and> map_of kvs ''pass_name'' = Some (JString ''BoundedChecker'')
        \<and> map_of kvs ''error_data'' = Some (JObject ed)
        \<and> map_of ed ''checking_result'' = Some (JString ''Deadlock'') \<longrightarrow>
        check parse (Failure ''PASS_FAILURE'' d)
          = Inr (Left \<lparr>explanation = Value (JString ''reached a deadlock''),
                       verifyErrors = [],
                       traces = (case map_of ed ''counterexamples'' of
                                   None \<Rightarrow> Undefined | Some v \<Rightarrow> Value v)\<rparr>))
   \<and> (parse d = Some (JObject kvs)
        \<and> map_of kvs ''pass_name'' = Some (JString p) \<and> p \<noteq> ''BoundedChecker'' \<longrightarrow>
        check parse (Failure ''PASS_FAILURE'' d)
          = Inl (InternalError ''internal error: unhandled verification error at pass ''
                   (Value (JString p))))
   \<and> (parse d = Some (JObject kvs)
        \<and> map_of kvs ''pass_name'' = Some (JString ''BoundedChecker'')
        \<and> map_of kvs ''error_data'' = Some (JObject ed)
        \<and> map_of ed ''checking_result'' = Some (JString c)
        \<and> c \<noteq> ''Error'' \<and> c \<noteq> ''Deadlock'' \<longrightarrow>
        check parse (Failure ''PASS_FAILURE'' d)
          = Inl (InternalError ''internal error: unhandled verification error ''
                   (Value (JString c))))"
proof (intro conjI impI)
  show "check parse Success = Inr (Right ())"
    by (simp add: check_def)
next
  assume "errorType \<noteq> ''UNEXPECTED'' \<and> errorType \<noteq> ''PASS_FAILURE''"
  then show "check parse (Failure errorType d)
      = Inr (err (Value (JString (errorType @ '': '' @ d))))"
    by (simp add: check_def)
next
  assume "parse d = Some (JObject kvs)"
  then show "check parse (Failure ''UNEXPECTED'' d)
      = Inr (err (case map_of kvs ''msg'' of None \<Rightarrow> Undefined | Some v \<Rightarrow> Value v))"
    by (simp add: check_def)
next
  assume a: "parse d = Some (JObject kvs)
        \<and> map_of kvs ''pass_name'' = Some (JString ''BoundedChecker'')
        \<and> map_of kvs ''error_data'' = Some (JObject ed)
        \<and> map_of ed ''checking_result'' = Some (JString ''Error'')"
  then show "check parse (Failure ''PASS_FAILURE'' d)
          = Inr (Left \<lparr>explanation = Value (JString ''found a counterexample''),
                       verifyErrors = [],
                       traces = (case map_of ed ''counterexamples'' of
                                   None \<Rightarrow> Undefined | Some v \<Rightarrow> Value v)\<rparr>)"
    by (simp add: check_def handleVerificationFailure_def)
next
  assume a: "parse d = Some (JObject kvs)
        \<and> map_of kvs ''pass_name'' = Some (JString ''BoundedChecker'')
        \<and> map_of kvs ''error_data'' = Some (JObject ed)
        \<and> map_of ed ''checking_result'' = Some (JString ''Deadlock'')"
  then show "check parse (Failure ''PASS_FAILURE'' d)
          = Inr (Left \<lparr>explanation = Value (JString ''reached a deadlock''),
                       verifyErrors = [],
                       traces = (case map_of ed ''counterexamples'' of
                                   None \<Rightarrow> Undefined | Some v \<Rightarrow> Value v)\<rparr>)"
    by (simp add: check_def handleVerificationFailure_def)
next
  assume a: "parse d = Some (JObject kvs)
        \<and> map_of kvs ''pass_name'' = Some (JString p) \<and> p \<noteq> ''BoundedChecker''"
  then show "check parse (Failure ''PASS_FAILURE'' d)
          = Inl (InternalError ''internal error: unhandled verification error at pass ''
                   (Value (JString p)))"
    by (simp add: check_def handleVerificationFailure_def)
next
  assume a: "parse d = Some (JObject kvs)
        \<and> map_of kvs ''pass_name'' = Some (JString ''BoundedChecker'')
        \<and> map_of kvs ''error_data'' = Some (JObject ed)
        \<and> map_of ed ''checking_result'' = Some (JString c)
        \<and> c \<noteq> ''Error'' \<and> c \<noteq> ''Deadlock''"
  then show "check parse (Failure ''PASS_FAILURE'' d)
          = Inl (InternalError ''internal error: unhandled verification error ''
                   (Value (JString c)))"
    by (simp add: check_def handleVerificationFailure_def)
qed

theorem check_response_witness:
  \<open>check parseExamples (Failure ''TIMEOUT'' ''late'')
     = (Inr (Left \<lparr>explanation = Value (JString ''TIMEOUT: late''), verifyErrors = [],
                    traces = Undefined\<rparr>) :: fault + (unit VerifyError, unit) Either)
   \<and> check parseExamples (Failure ''UNEXPECTED'' ''{"msg":"boom"}'')
     = (Inr (Left \<lparr>explanation = Value (JString ''boom''), verifyErrors = [],
                    traces = Undefined\<rparr>) :: fault + (unit VerifyError, unit) Either)
   \<and> check parseExamples (Failure ''PASS_FAILURE''
        ''{"pass_name":"BoundedChecker","error_data":{"checking_result":"Error","counterexamples":[]}}'')
     = (Inr (Left \<lparr>explanation = Value (JString ''found a counterexample''),
                    verifyErrors = [], traces = Value (JArray [])\<rparr>)
          :: fault + (unit VerifyError, unit) Either)
   \<and> check parseExamples (Failure ''PASS_FAILURE''
        ''{"pass_name":"BoundedChecker","error_data":{"checking_result":"Deadlock","counterexamples":[]}}'')
     = (Inr (Left \<lparr>explanation = Value (JString ''reached a deadlock''),
                    verifyErrors = [], traces = Value (JArray [])\<rparr>)
          :: fault + (unit VerifyError, unit) Either)
   \<and> check parseExamples (Failure ''PASS_FAILURE''
        ''{"pass_name":"TypeChecker","error_data":{}}'')
     = (Inl (InternalError ''internal error: unhandled verification error at pass ''
               (Value (JString ''TypeChecker'')))
          :: fault + (unit VerifyError, unit) Either)
   \<and> check parseExamples (Failure ''PASS_FAILURE''
        ''{"pass_name":"BoundedChecker","error_data":{"checking_result":"RuntimeError","counterexamples":[]}}'')
     = (Inl (InternalError ''internal error: unhandled verification error ''
               (Value (JString ''RuntimeError'')))
          :: fault + (unit VerifyError, unit) Either)\<close>
  using
    check_response[where ?'a = unit and parse = parseExamples and errorType = \<open>''TIMEOUT''\<close>
      and d = \<open>''late''\<close> and kvs = \<open>[]\<close> and ed = \<open>[]\<close> and p = \<open>''''\<close> and c = \<open>''''\<close>]
    check_response[where ?'a = unit and parse = parseExamples and errorType = \<open>''TIMEOUT''\<close>
      and d = \<open>''{"msg":"boom"}''\<close> and kvs = \<open>[(''msg'', JString ''boom'')]\<close>
      and ed = \<open>[]\<close> and p = \<open>''''\<close> and c = \<open>''''\<close>]
    check_response[where ?'a = unit and parse = parseExamples and errorType = \<open>''TIMEOUT''\<close>
      and d = \<open>''{"pass_name":"BoundedChecker","error_data":{"checking_result":"Error","counterexamples":[]}}''\<close>
      and kvs = \<open>[(''pass_name'', JString ''BoundedChecker''),
              (''error_data'', JObject [(''checking_result'', JString ''Error''),
                                        (''counterexamples'', JArray [])])]\<close>
      and ed = \<open>[(''checking_result'', JString ''Error''), (''counterexamples'', JArray [])]\<close>
      and p = \<open>''''\<close> and c = \<open>''''\<close>]
    check_response[where ?'a = unit and parse = parseExamples and errorType = \<open>''TIMEOUT''\<close>
      and d = \<open>''{"pass_name":"BoundedChecker","error_data":{"checking_result":"Deadlock","counterexamples":[]}}''\<close>
      and kvs = \<open>[(''pass_name'', JString ''BoundedChecker''),
              (''error_data'', JObject [(''checking_result'', JString ''Deadlock''),
                                        (''counterexamples'', JArray [])])]\<close>
      and ed = \<open>[(''checking_result'', JString ''Deadlock''), (''counterexamples'', JArray [])]\<close>
      and p = \<open>''''\<close> and c = \<open>''''\<close>]
    check_response[where ?'a = unit and parse = parseExamples and errorType = \<open>''TIMEOUT''\<close>
      and d = \<open>''{"pass_name":"TypeChecker","error_data":{}}''\<close>
      and kvs = \<open>[(''pass_name'', JString ''TypeChecker''), (''error_data'', JObject [])]\<close>
      and ed = \<open>[]\<close> and p = \<open>''TypeChecker''\<close> and c = \<open>''''\<close>]
    check_response[where ?'a = unit and parse = parseExamples and errorType = \<open>''TIMEOUT''\<close>
      and d = \<open>''{"pass_name":"BoundedChecker","error_data":{"checking_result":"RuntimeError","counterexamples":[]}}''\<close>
      and kvs = \<open>[(''pass_name'', JString ''BoundedChecker''),
              (''error_data'', JObject [(''checking_result'', JString ''RuntimeError''),
                                        (''counterexamples'', JArray [])])]\<close>
      and ed = \<open>[(''checking_result'', JString ''RuntimeError''),
              (''counterexamples'', JArray [])]\<close>
      and p = \<open>''''\<close> and c = \<open>''RuntimeError''\<close>]
  by (simp add: err_def check_def handleVerificationFailure_def)

text \<open>
  C10, as the specification states it, fails: on these three responses \<open>check\<close>
  throws and returns no value of the result type.
\<close>

theorem check_throws:
  \<open>(check parseExamples (Failure ''PASS_FAILURE''
        ''{"pass_name":"TypeChecker","error_data":{}}'')
      :: fault + (unit VerifyError, unit) Either)
     = Inl (InternalError ''internal error: unhandled verification error at pass ''
              (Value (JString ''TypeChecker'')))
   \<and> (check parseExamples (Failure ''PASS_FAILURE''
        ''{"pass_name":"BoundedChecker","error_data":{"checking_result":"RuntimeError","counterexamples":[]}}'')
      :: fault + (unit VerifyError, unit) Either)
     = Inl (InternalError ''internal error: unhandled verification error ''
              (Value (JString ''RuntimeError'')))
   \<and> (check parseExamples (Failure ''UNEXPECTED'' ''null'')
      :: fault + (unit VerifyError, unit) Either)
     = Inl PropertyTypeError
   \<and> \<not> (\<forall>parse response. \<exists>r.
          (check parse response :: fault + (unit VerifyError, unit) Either) = Inr r)\<close>
proof -
  have a: \<open>(check parseExamples (Failure ''PASS_FAILURE''
        ''{"pass_name":"TypeChecker","error_data":{}}'')
      :: fault + (unit VerifyError, unit) Either)
     = Inl (InternalError ''internal error: unhandled verification error at pass ''
              (Value (JString ''TypeChecker'')))\<close>
    by (simp add: check_def handleVerificationFailure_def)
  have b: \<open>(check parseExamples (Failure ''PASS_FAILURE''
        ''{"pass_name":"BoundedChecker","error_data":{"checking_result":"RuntimeError","counterexamples":[]}}'')
      :: fault + (unit VerifyError, unit) Either)
     = Inl (InternalError ''internal error: unhandled verification error ''
              (Value (JString ''RuntimeError'')))\<close>
    by (simp add: check_def handleVerificationFailure_def)
  have c: \<open>(check parseExamples (Failure ''UNEXPECTED'' ''null'')
      :: fault + (unit VerifyError, unit) Either)
     = Inl PropertyTypeError\<close>
    by (simp add: check_def)
  have d: \<open>\<not> (\<forall>parse response. \<exists>r.
          (check parse response :: fault + (unit VerifyError, unit) Either) = Inr r)\<close>
  proof
    assume \<open>\<forall>parse response. \<exists>r.
          (check parse response :: fault + (unit VerifyError, unit) Either) = Inr r\<close>
    then obtain r where \<open>(check parseExamples (Failure ''UNEXPECTED'' ''null'')
      :: fault + (unit VerifyError, unit) Either) = Inr r\<close>
      by blast
    with c show False by simp
  qed
  show ?thesis by (rule conjI[OF a conjI[OF b conjI[OF c d]]])
qed


end
